theory Spec2Isabelle
  imports Main "HOL-Library.Sublist"
begin

section \<open>Failures: returned errors and run-time panics\<close>

text \<open>
  A Go function of \<open>list.go\<close> either returns a value, returns an \<open>error\<close>, or panics
  on an out-of-range index. An error is the chain of messages that \<open>fmt.Errorf("...: %w")\<close>
  builds, outermost first; the text of an operating-system or YAML error at the bottom of the
  chain is not modelled. \<open>IndexPanic i n\<close> is Go's run-time panic
  "index out of range [i] with length n".
\<close>

datatype failure = Err "string list" | IndexPanic nat nat

type_synonym 'a result = "failure + 'a"

definition rbind :: "'a result \<Rightarrow> ('a \<Rightarrow> 'b result) \<Rightarrow> 'b result" where
  "rbind m f = (case m of Inl e \<Rightarrow> Inl e | Inr x \<Rightarrow> f x)"

text \<open>\<open>fmt.Errorf(msg + ": %w", err)\<close> on the error path; a panic is not an error value and
  unwinds through the caller unchanged.\<close>

fun wrapFailure :: "string \<Rightarrow> failure \<Rightarrow> failure" where
  "wrapFailure msg (Err ms) = Err (msg # ms)"
| "wrapFailure msg (IndexPanic i n) = IndexPanic i n"

text \<open>The slice index expression \<open>xs[i]\<close>.\<close>

definition index :: "'a list \<Rightarrow> nat \<Rightarrow> 'a result" where
  "index xs i = (if i < length xs then Inr (xs ! i) else Inl (IndexPanic i (length xs)))"

section \<open>The functions of Go's \<open>strings\<close> and \<open>bytes\<close> packages that the program calls\<close>

text \<open>A Go string and a byte slice are both sequences of bytes: \<open>string\<close>.\<close>

fun Index :: "string \<Rightarrow> string \<Rightarrow> nat option" where
  "Index [] sep = (if sep = [] then Some 0 else None)"
| "Index (c # cs) sep =
     (if prefix sep (c # cs) then Some 0 else map_option Suc (Index cs sep))"

definition Contains :: "string \<Rightarrow> string \<Rightarrow> bool" where
  "Contains s substr = (Index s substr \<noteq> None)"

text \<open>
  \<open>strings.Split\<close> and \<open>bytes.Split\<close> (\<open>genSplit\<close> with no limit): cut at each leftmost
  occurrence of the separator found by \<open>Index\<close>, continue behind it, and end with the rest.
  With an empty separator Go explodes the string; the program only passes the constant
  separators \<open>":"\<close>, \<open>"/"\<close>, \<open>"="\<close> and the document separator, so that branch is given
  bytewise and never taken.
\<close>

function Split :: "string \<Rightarrow> string \<Rightarrow> string list" where
  "Split s sep =
     (if sep = [] then map (\<lambda>c. [c]) s
      else case Index s sep of
             None \<Rightarrow> [s]
           | Some m \<Rightarrow> take m s # Split (drop (m + length sep) s) sep)"
  by pat_completeness auto
termination
proof (relation "measure (\<lambda>(s, sep). length s)")
  show "wf (measure (\<lambda>(s, sep). length s))" by simp
next
  fix s sep :: string and m :: nat
  assume "sep \<noteq> []" and "Index s sep = Some m"
  then have "s \<noteq> []" by (cases s) auto
  with \<open>sep \<noteq> []\<close>
  show "((drop (m + length sep) s, sep), (s, sep)) \<in> measure (\<lambda>(s, sep). length s)"
    by simp
qed

declare Split.simps [simp del]

definition TrimPrefix :: "string \<Rightarrow> string \<Rightarrow> string" where
  "TrimPrefix s pre = (if prefix pre s then drop (length pre) s else s)"

section \<open>Extraction of image strings from containers\<close>

text \<open>The two fields of \<open>corev1.Container\<close> that the program reads.\<close>

record Container =
  Image :: string
  Args :: "string list"

text \<open>\<open>getImagesFromContainerArgs\<close>: the loop over \<open>args\<close> with its accumulator \<open>images\<close>.\<close>

fun argsLoop :: "string list \<Rightarrow> string list \<Rightarrow> string list result" where
  "argsLoop images [] = Inr images"
| "argsLoop images (arg # args) =
     (if \<not> Contains arg '':'' \<or> Contains arg ''=:'' then argsLoop images args
      else rbind (index (Split arg ''='') 1) (\<lambda>tok. argsLoop (images @ [tok]) args))"

definition getImagesFromContainerArgs :: "string list \<Rightarrow> string list result" where
  "getImagesFromContainerArgs args = argsLoop [] args"


text \<open>\<open>getImagesFromContainers\<close>: for each container the image field, then the images
  found in its arguments.\<close>

fun containersLoop :: "string list \<Rightarrow> Container list \<Rightarrow> string list result" where
  "containersLoop images [] = Inr images"
| "containersLoop images (container # containers) =
     rbind (getImagesFromContainerArgs (Args container))
       (\<lambda>argImages. containersLoop ((images @ [Image container]) @ argImages) containers)"

definition getImagesFromContainers :: "Container list \<Rightarrow> string list result" where
  "getImagesFromContainers containers = containersLoop [] containers"

section \<open>Deduplication\<close>

text \<open>
  \<open>strings.EqualFold\<close> (equality under Unicode simple case folding) belongs to Go's library
  and is a parameter \<open>ef\<close> of the two functions. \<open>EqualFoldASCII\<close> is what it computes on
  ASCII strings; the worked examples use it.
\<close>

fun contains :: "(string \<Rightarrow> string \<Rightarrow> bool) \<Rightarrow> string list \<Rightarrow> string \<Rightarrow> bool" where
  "contains ef [] img = False"
| "contains ef (currentImage # images) img =
     (if ef currentImage img then True else contains ef images img)"

fun dedupeLoop ::
  "(string \<Rightarrow> string \<Rightarrow> bool) \<Rightarrow> string list \<Rightarrow> string list \<Rightarrow> string list" where
  "dedupeLoop ef dedupedImageList [] = dedupedImageList"
| "dedupeLoop ef dedupedImageList (img # images) =
     (if \<not> contains ef dedupedImageList img
      then dedupeLoop ef (dedupedImageList @ [img]) images
      else dedupeLoop ef dedupedImageList images)"

definition dedupeImages :: "(string \<Rightarrow> string \<Rightarrow> bool) \<Rightarrow> string list \<Rightarrow> string list" where
  "dedupeImages ef images = dedupeLoop ef [] images"

definition asciiLower :: "char \<Rightarrow> char" where
  "asciiLower c =
     (let n = (of_char c :: nat) in if 65 \<le> n \<and> n \<le> 90 then char_of (n + 32) else c)"

definition EqualFoldASCII :: "string \<Rightarrow> string \<Rightarrow> bool" where
  "EqualFoldASCII s t = (map asciiLower s = map asciiLower t)"

section \<open>Parsing and formatting an image string\<close>

record DockerImage =
  Host :: string
  Name :: string
  Repository :: string
  Version :: string

text \<open>\<open>DockerImage.String\<close>.\<close>

definition DockerImage_String :: "DockerImage \<Rightarrow> string" where
  "DockerImage_String d =
     (let output = (if Host d \<noteq> [] then Host d @ ''/'' else [])
      in output @ Repository d @ '':'' @ Version d)"

text \<open>
  The body of the loop of \<open>marshalImages\<close> for one image string. Every index expression of
  the source is an \<open>index\<close> here, in the order in which the source evaluates them
  (\<open>imageTokens[1]\<close> last, when the struct is built).
\<close>

definition marshalImage :: "string \<Rightarrow> DockerImage result" where
  "marshalImage img =
     (let imageTokens = Split img '':'' in
      rbind (index imageTokens 0) (\<lambda>token0.
      let imagePaths = Split token0 ''/'' in
      rbind (index imagePaths (length imagePaths - 1)) (\<lambda>imageName.
      rbind (index imagePaths 0) (\<lambda>path0.
      let imageHost = (if Contains path0 ''.io'' then path0 else []);
          imageRepository =
            (if imageHost \<noteq> [] then TrimPrefix token0 (imageHost @ ''/'') else token0)
      in rbind (index imageTokens 1) (\<lambda>token1.
           Inr \<lparr>Host = imageHost, Name = imageName,
                Repository = imageRepository, Version = token1\<rparr>)))))"

fun marshalLoop :: "DockerImage list \<Rightarrow> string list \<Rightarrow> DockerImage list result" where
  "marshalLoop marshaledImages [] = Inr marshaledImages"
| "marshalLoop marshaledImages (img # images) =
     rbind (marshalImage img)
       (\<lambda>dockerImage. marshalLoop (marshaledImages @ [dockerImage]) images)"

definition marshalImages :: "string list \<Rightarrow> DockerImage list result" where
  "marshalImages images = marshalLoop [] images"

section \<open>Splitting a file into documents\<close>

text \<open>\<open>doSplit\<close>; \<open>runtime.GOOS\<close> is the parameter \<open>goos\<close>.\<close>

definition CRLF :: string where
  "CRLF = [CHR 0x0D, CHR 0x0A]"

definition LF :: string where
  "LF = [CHR 0x0A]"

definition doSplit :: "string \<Rightarrow> string \<Rightarrow> string list" where
  "doSplit goos data =
     (let windowsLineEnding = Contains data CRLF;
          linebreak = (if windowsLineEnding \<and> goos = ''windows'' then CRLF else LF)
      in Split data (linebreak @ ''---'' @ linebreak))"


section \<open>The environment of a run\<close>

text \<open>
  What \<open>filepath.Walk\<close> finds at a path: a regular file, a directory with its entries in
  the order of the walk, or an entry for which the walk hands an error to its callback.
  The first component is \<open>fileInfo.Name()\<close>.
\<close>

datatype fs_node = FsFile string | FsDir string "fs_node list" | FsBroken string

fun node_name :: "fs_node \<Rightarrow> string" where
  "node_name (FsFile name) = name"
| "node_name (FsDir name entries) = name"
| "node_name (FsBroken name) = name"

text \<open>
  The operating system, the flag store and the libraries, as far as \<open>list.go\<close> calls them:
  \<open>os.Getwd\<close>, \<open>filepath.Join\<close>, the tree that the walk finds at a path,
  \<open>ioutil.ReadFile\<close>, whether \<open>os.Create\<close> succeeds, \<open>runtime.GOOS\<close>,
  \<open>viper.GetString("output")\<close>, \<open>strings.EqualFold\<close>, and \<open>yaml.Unmarshal\<close> at each of the
  four target types (\<open>None\<close> is a returned error): the \<open>Kind\<close> of \<open>metav1.TypeMeta\<close>,
  \<open>Spec.BaseImage\<close> and \<open>Spec.Version\<close> of \<open>promv1.Prometheus\<close> and of
  \<open>promv1.Alertmanager\<close>, and \<open>InitContainers\<close> and \<open>Containers\<close> of
  \<open>Spec.Template.Spec\<close> of the local \<open>BaseType\<close>.
\<close>

record env =
  Getwd :: "string option"
  Join :: "string \<Rightarrow> string \<Rightarrow> string"
  Lstat :: "string \<Rightarrow> fs_node"
  ReadFile :: "string \<Rightarrow> string option"
  Create :: "string \<Rightarrow> bool"
  GOOS :: string
  outputFlag :: string
  EqualFold :: "string \<Rightarrow> string \<Rightarrow> bool"
  unmarshalTypeMeta :: "string \<Rightarrow> string option"
  unmarshalPrometheus :: "string \<Rightarrow> (string \<times> string) option"
  unmarshalAlertmanager :: "string \<Rightarrow> (string \<times> string) option"
  unmarshalBaseType :: "string \<Rightarrow> (Container list \<times> Container list) option"

section \<open>Collecting the manifest files\<close>

text \<open>\<open>filepath.Ext\<close>: the suffix from the last dot of the last path element.\<close>

definition Ext :: "string \<Rightarrow> string" where
  "Ext path =
     (let base = rev (takeWhile (\<lambda>c. c \<noteq> CHR ''/'') (rev path))
      in if CHR ''.'' \<in> set base
         then CHR ''.'' # rev (takeWhile (\<lambda>c. c \<noteq> CHR ''.'') (rev base))
         else [])"

text \<open>
  \<open>getYamlFiles\<close>: the callback applied along \<open>filepath.Walk\<close>. An error handed to the
  callback ends the walk with \<open>walk path\<close>; a directory named \<open>.git\<close> is skipped with all
  below it; other directories are entered; a file is appended when its extension is
  \<open>.yaml\<close> or \<open>.yml\<close>.
\<close>

fun walkNode ::
    "(string \<Rightarrow> string \<Rightarrow> string) \<Rightarrow> string \<Rightarrow> fs_node \<Rightarrow> string list \<Rightarrow> string list result"
  and walkEntries ::
    "(string \<Rightarrow> string \<Rightarrow> string) \<Rightarrow> string \<Rightarrow> fs_node list \<Rightarrow> string list \<Rightarrow> string list result"
  where
  "walkNode join currentFilePath (FsBroken name) files = Inl (Err [''walk path''])"
| "walkNode join currentFilePath (FsDir name entries) files =
     (if name = ''.git'' then Inr files else walkEntries join currentFilePath entries files)"
| "walkNode join currentFilePath (FsFile name) files =
     (if Ext currentFilePath \<noteq> ''.yaml'' \<and> Ext currentFilePath \<noteq> ''.yml'' then Inr files
      else Inr (files @ [currentFilePath]))"
| "walkEntries join dir [] files = Inr files"
| "walkEntries join dir (entry # entries) files =
     rbind (walkNode join (join dir (node_name entry)) entry files)
       (\<lambda>files'. walkEntries join dir entries files')"

definition getYamlFiles :: "env \<Rightarrow> string \<Rightarrow> string list result" where
  "getYamlFiles e path = walkNode (Join e) path (Lstat e path) []"

text \<open>\<open>splitYamlFiles\<close>.\<close>

fun splitLoop :: "env \<Rightarrow> string list \<Rightarrow> string list \<Rightarrow> string list result" where
  "splitLoop e yamlFiles [] = Inr yamlFiles"
| "splitLoop e yamlFiles (file # files) =
     (case ReadFile e file of
        None \<Rightarrow> Inl (Err [''open file''])
      | Some fileContent \<Rightarrow> splitLoop e (yamlFiles @ doSplit (GOOS e) fileContent) files)"

definition splitYamlFiles :: "env \<Rightarrow> string list \<Rightarrow> string list result" where
  "splitYamlFiles e files = splitLoop e [] files"

section \<open>The list command\<close>

text \<open>
  The loop of \<open>GetImagesInPath\<close> over the documents, with its accumulator \<open>imageList\<close>:
  \<open>continue\<close> is the recursive call with the accumulator unchanged, \<open>return nil, err\<close>
  is \<open>Inl\<close>.
\<close>

fun documentsLoop :: "env \<Rightarrow> string list \<Rightarrow> string list \<Rightarrow> string list result" where
  "documentsLoop e imageList [] = Inr imageList"
| "documentsLoop e imageList (yamlFile # yamlFiles) =
     (case unmarshalTypeMeta e yamlFile of
        None \<Rightarrow> documentsLoop e imageList yamlFiles
      | Some kind \<Rightarrow>
          if kind = ''Prometheus'' then
            (case unmarshalPrometheus e yamlFile of
               None \<Rightarrow> Inl (Err [''unmarshal prometheus''])
             | Some (baseImage, version) \<Rightarrow>
                 documentsLoop e (imageList @ [baseImage @ '':'' @ version]) yamlFiles)
          else if kind = ''Alertmanager'' then
            (case unmarshalAlertmanager e yamlFile of
               None \<Rightarrow> Inl (Err [''unmarshal alertmanager''])
             | Some (baseImage, version) \<Rightarrow>
                 documentsLoop e (imageList @ [baseImage @ '':'' @ version]) yamlFiles)
          else
            (case unmarshalBaseType e yamlFile of
               None \<Rightarrow> documentsLoop e imageList yamlFiles
             | Some (initContainers, containers) \<Rightarrow>
                 rbind (if 0 < length initContainers
                        then rbind (getImagesFromContainers initContainers)
                               (\<lambda>images. Inr (imageList @ images))
                        else Inr imageList)
                   (\<lambda>imageList1.
                 rbind (if 0 < length containers
                        then rbind (getImagesFromContainers containers)
                               (\<lambda>images. Inr (imageList1 @ images))
                        else Inr imageList1)
                   (\<lambda>imageList2. documentsLoop e imageList2 yamlFiles))))"

definition wrap :: "string \<Rightarrow> 'a result \<Rightarrow> 'a result" where
  "wrap msg r = (case r of Inl f \<Rightarrow> Inl (wrapFailure msg f) | Inr x \<Rightarrow> Inr x)"

definition GetImagesInPath :: "env \<Rightarrow> string \<Rightarrow> DockerImage list result" where
  "GetImagesInPath e path =
     rbind (wrap ''get yaml files'' (getYamlFiles e path)) (\<lambda>files.
     rbind (wrap ''split yaml files'' (splitYamlFiles e files)) (\<lambda>yamlFiles.
     rbind (documentsLoop e [] yamlFiles) (\<lambda>imageList.
     marshalImages (dedupeImages (EqualFold e) imageList))))"

text \<open>
  What a run leaves behind: the lines printed to standard output, or the file created with
  its lines, or nothing.
\<close>

datatype effect = Nothing | Printed "string list" | FileWritten string "string list"

text \<open>\<open>writeListToFile\<close>: the returned error (\<open>None\<close> is \<open>nil\<close>) and the effect.\<close>

definition writeListToFile :: "env \<Rightarrow> DockerImage list \<Rightarrow> string \<Rightarrow> failure option \<times> effect" where
  "writeListToFile e images outputFile =
     (if Create e outputFile
      then (None, FileWritten outputFile (map DockerImage_String images))
      else (Some (Err [''creating file'']), Nothing))"

text \<open>
  \<open>runListCommand\<close>. The call \<open>writeListToFile(images, outputFile)\<close> is an expression
  statement: its returned error is dropped, and the function goes on to \<open>return nil\<close>.
\<close>

definition runListCommand :: "env \<Rightarrow> string list \<Rightarrow> failure option \<times> effect" where
  "runListCommand e args =
     (case Getwd e of
        None \<Rightarrow> (Some (Err [''get working dir'']), Nothing)
      | Some workingDir \<Rightarrow>
          (case index args 0 of
             Inl f \<Rightarrow> (Some f, Nothing)
           | Inr arg0 \<Rightarrow>
               (case GetImagesInPath e (Join e workingDir arg0) of
                  Inl f \<Rightarrow> (Some (wrapFailure ''get images from path'' f), Nothing)
                | Inr images \<Rightarrow>
                    if outputFlag e \<noteq> [] then
                      (let outputFile = Join e workingDir (outputFlag e)
                       in (None, snd (writeListToFile e images outputFile)))
                    else (None, Printed (map DockerImage_String images)))))"

text \<open>The \<open>RunE\<close> closure of \<open>NewListCommand\<close>, after the flag is bound.\<close>

definition listRunE :: "env \<Rightarrow> string list \<Rightarrow> failure option \<times> effect" where
  "listRunE e args =
     (case runListCommand e args of
        (Some f, eff) \<Rightarrow> (Some (wrapFailure ''list'' f), eff)
      | (None, eff) \<Rightarrow> (None, eff))"

section \<open>Reference notions for the statements\<close>

text \<open>
  The portion of a string before and after the first occurrence of a character, and before
  and after the last one.
\<close>

definition beforeFirst :: "char \<Rightarrow> string \<Rightarrow> string" where
  "beforeFirst c s = takeWhile (\<lambda>x. x \<noteq> c) s"

definition afterFirst :: "char \<Rightarrow> string \<Rightarrow> string" where
  "afterFirst c s = tl (dropWhile (\<lambda>x. x \<noteq> c) s)"

definition afterLast :: "char \<Rightarrow> string \<Rightarrow> string" where
  "afterLast c s = rev (takeWhile (\<lambda>x. x \<noteq> c) (rev s))"

definition beforeLast :: "char \<Rightarrow> string \<Rightarrow> string" where
  "beforeLast c s = rev (tl (dropWhile (\<lambda>x. x \<noteq> c) (rev s)))"

text \<open>The documents of a file put together again with the separator between them
  (\<open>bytes.Join\<close>).\<close>

fun joinWith :: "string \<Rightarrow> string list \<Rightarrow> string" where
  "joinWith sep [] = []"
| "joinWith sep [x] = x"
| "joinWith sep (x # y # ys) = x @ sep @ joinWith sep (y # ys)"

section \<open>A sample run\<close>

text \<open>
  Manifests used in the worked examples, and what \<open>yaml.Unmarshal\<close> returns for them at the
  four target types: a Deployment with two containers, the second with an argument; a
  Deployment whose image has no tag; a Prometheus resource; a Prometheus and an
  Alertmanager resource whose \<open>spec.version\<close> is a list, so that decoding the full
  structure fails; a document that
  is not YAML; a document whose \<open>spec\<close> is a number, so that decoding the pod template
  fails.
\<close>

definition deploymentDoc :: string where
  "deploymentDoc = ''kind: Deployment\<newline>spec:\<newline>  template:\<newline>    spec:\<newline>      containers:\<newline>      - image: nginx:1.0\<newline>      - image: busybox:1.2\<newline>        args:\<newline>        - --proxy-image=gcr.io/proj/proxy:1.0\<newline>''"

definition untaggedDoc :: string where
  "untaggedDoc = ''kind: Deployment\<newline>spec:\<newline>  template:\<newline>    spec:\<newline>      containers:\<newline>      - image: nginx\<newline>''"

definition prometheusDoc :: string where
  "prometheusDoc = ''kind: Prometheus\<newline>spec:\<newline>  baseImage: quay.io/prometheus/prometheus\<newline>  version: v2.0.0\<newline>''"

definition brokenPrometheusDoc :: string where
  "brokenPrometheusDoc = ''kind: Prometheus\<newline>spec:\<newline>  version:\<newline>  - 2\<newline>''"

definition brokenAlertmanagerDoc :: string where
  "brokenAlertmanagerDoc = ''kind: Alertmanager\<newline>spec:\<newline>  version:\<newline>  - 1\<newline>''"

definition notYamlDoc :: string where
  "notYamlDoc = ''kind: [Deployment\<newline>''"

definition numberSpecDoc :: string where
  "numberSpecDoc = ''kind: ConfigMap\<newline>spec: 3\<newline>''"

definition sampleTypeMeta :: "string \<Rightarrow> string option" where
  "sampleTypeMeta doc =
     (if doc = notYamlDoc then None
      else if doc = deploymentDoc \<or> doc = untaggedDoc then Some ''Deployment''
      else if doc = prometheusDoc \<or> doc = brokenPrometheusDoc then Some ''Prometheus''
      else if doc = brokenAlertmanagerDoc then Some ''Alertmanager''
      else if doc = numberSpecDoc then Some ''ConfigMap''
      else Some [])"

definition samplePrometheus :: "string \<Rightarrow> (string \<times> string) option" where
  "samplePrometheus doc =
     (if doc = prometheusDoc then Some (''quay.io/prometheus/prometheus'', ''v2.0.0'')
      else if doc = brokenPrometheusDoc \<or> doc = notYamlDoc then None
      else Some ([], []))"

definition sampleAlertmanager :: "string \<Rightarrow> (string \<times> string) option" where
  "sampleAlertmanager doc =
     (if doc = brokenAlertmanagerDoc \<or> doc = notYamlDoc then None else Some ([], []))"

definition sampleBaseType :: "string \<Rightarrow> (Container list \<times> Container list) option" where
  "sampleBaseType doc =
     (if doc = deploymentDoc then
        Some ([], [\<lparr>Image = ''nginx:1.0'', Args = []\<rparr>,
                   \<lparr>Image = ''busybox:1.2'', Args = [''--proxy-image=gcr.io/proj/proxy:1.0'']\<rparr>])
      else if doc = untaggedDoc then Some ([], [\<lparr>Image = ''nginx'', Args = []\<rparr>])
      else if doc = numberSpecDoc \<or> doc = notYamlDoc then None
      else Some ([], []))"

text \<open>
  A run on Linux in \<open>/work\<close>: the directory \<open>manifests\<close> holds a \<open>.git\<close> directory, the
  manifest \<open>app.yaml\<close> with the given content and a text file; \<open>--output out/images.txt\<close>
  is given, and \<open>os.Create\<close> fails (the directory \<open>out\<close> does not exist).
\<close>

definition sampleEnv :: "string \<Rightarrow> env" where
  "sampleEnv content =
     \<lparr>Getwd = Some ''/work'',
      Join = (\<lambda>dir name. dir @ ''/'' @ name),
      Lstat = (\<lambda>path. if path = ''/work/manifests''
                 then FsDir ''manifests''
                        [FsDir ''.git'' [FsFile ''hook.yaml''], FsFile ''app.yaml'',
                         FsFile ''notes.txt'']
                 else FsBroken path),
      ReadFile = (\<lambda>path. if path = ''/work/manifests/app.yaml'' then Some content else None),
      Create = (\<lambda>path. False),
      GOOS = ''linux'',
      outputFlag = ''out/images.txt'',
      EqualFold = EqualFoldASCII,
      unmarshalTypeMeta = sampleTypeMeta,
      unmarshalPrometheus = samplePrometheus,
      unmarshalAlertmanager = sampleAlertmanager,
      unmarshalBaseType = sampleBaseType\<rparr>"

section \<open>Facts about the library functions\<close>

lemma rbind_Inr [simp]: "rbind (Inr x) f = f x"
  by (simp add: rbind_def)

lemma rbind_Inl [simp]: "rbind (Inl e) f = Inl e"
  by (simp add: rbind_def)

lemma Index_Some_decompose:
  "Index s sep = Some m \<Longrightarrow> s = take m s @ sep @ drop (m + length sep) s \<and> m + length sep \<le> length s"
proof (induction s arbitrary: m)
  case Nil
  then show ?case by (auto split: if_splits)
next
  case (Cons c cs)
  show ?case
  proof (cases "prefix sep (c # cs)")
    case True
    then obtain zs where "c # cs = sep @ zs" by (auto simp: prefix_def)
    moreover from True Cons.prems have "m = 0" by simp
    ultimately show ?thesis by (metis add_0 append_Nil append_eq_conv_conj le_add1 length_append take0)
  next
    case False
    with Cons.prems obtain k where k: "Index cs sep = Some k" "m = Suc k" by auto
    from Cons.IH [OF k(1)] k(2) show ?thesis by simp
  qed
qed

lemma Index_None_iff: "Index s sep = None \<longleftrightarrow> \<not> sublist sep s"
proof (induction s)
  case Nil
  then show ?case by simp
next
  case (Cons c cs)
  then show ?case by (auto simp: sublist_Cons_right)
qed

lemma Contains_sublist: "Contains s substr \<longleftrightarrow> sublist substr s"
  by (simp add: Contains_def Index_None_iff)


lemma Contains_subset: "Contains s substr \<Longrightarrow> set substr \<subseteq> set s"
  by (simp add: Contains_sublist set_mono_sublist)

lemma Index_single:
  "Index s [c] = (if c \<in> set s then Some (length (takeWhile (\<lambda>x. x \<noteq> c) s)) else None)"
  by (induction s) auto

lemma Contains_single: "Contains s [c] \<longleftrightarrow> c \<in> set s"
  by (simp add: Contains_def Index_single)

lemma Split_single:
  "Split s [c] =
     takeWhile (\<lambda>x. x \<noteq> c) s #
       (if c \<in> set s then Split (tl (dropWhile (\<lambda>x. x \<noteq> c) s)) [c] else [])"
proof (cases "c \<in> set s")
  case True
  have "drop (Suc (length (takeWhile (\<lambda>x. x \<noteq> c) s))) s = tl (dropWhile (\<lambda>x. x \<noteq> c) s)"
    by (simp add: dropWhile_eq_drop drop_Suc tl_drop)
  with True show ?thesis
    by (subst Split.simps) (simp add: Index_single takeWhile_eq_take [symmetric])
next
  case False
  then have tw: "takeWhile (\<lambda>x. x \<noteq> c) s = s"
    by (auto simp: takeWhile_eq_all_conv)
  from False show ?thesis
    by (subst Split.simps) (simp add: Index_single tw)
qed

lemma Split_no_separator: "c \<notin> set s \<Longrightarrow> Split s [c] = [s]"
  by (subst Split_single) auto

lemma first_decompose:
  "c \<in> set s \<Longrightarrow> s = beforeFirst c s @ c # afterFirst c s \<and> c \<notin> set (beforeFirst c s)"
proof -
  assume c: "c \<in> set s"
  then have ne: "dropWhile (\<lambda>x. x \<noteq> c) s \<noteq> []" by simp
  then have "hd (dropWhile (\<lambda>x. x \<noteq> c) s) = c" using hd_dropWhile [of "\<lambda>x. x \<noteq> c" s] by simp
  with ne have "dropWhile (\<lambda>x. x \<noteq> c) s = c # tl (dropWhile (\<lambda>x. x \<noteq> c) s)"
    by (metis list.collapse)
  then have "s = takeWhile (\<lambda>x. x \<noteq> c) s @ c # tl (dropWhile (\<lambda>x. x \<noteq> c) s)"
    by (metis takeWhile_dropWhile_id)
  moreover have "c \<notin> set (takeWhile (\<lambda>x. x \<noteq> c) s)"
    by (auto dest: set_takeWhileD)
  ultimately show ?thesis by (simp add: beforeFirst_def afterFirst_def)
qed

lemma last_decompose:
  "c \<in> set s \<Longrightarrow> s = beforeLast c s @ c # afterLast c s \<and> c \<notin> set (afterLast c s)"
proof -
  assume "c \<in> set s"
  then have "c \<in> set (rev s)" by simp
  from first_decompose [OF this]
  have r: "rev s = beforeFirst c (rev s) @ c # afterFirst c (rev s)"
    and n: "c \<notin> set (beforeFirst c (rev s))" by simp_all
  have "s = rev (rev s)" by simp
  also have "\<dots> = rev (afterFirst c (rev s)) @ c # rev (beforeFirst c (rev s))"
    by (subst r) simp
  finally have "s = beforeLast c s @ c # afterLast c s"
    by (simp add: beforeLast_def afterLast_def beforeFirst_def afterFirst_def)
  moreover from n have "c \<notin> set (afterLast c s)"
    by (simp add: afterLast_def beforeFirst_def)
  ultimately show ?thesis by simp
qed

lemma Split_first_two:
  "c \<in> set s \<Longrightarrow>
   \<exists>rest. Split s [c] = beforeFirst c s # beforeFirst c (afterFirst c s) # rest"
  by (subst Split_single, subst Split_single) (simp add: beforeFirst_def afterFirst_def)

text \<open>
  C10. The extraction of images from arguments is not total: an argument that contains
  \<open>:\<close> and no \<open>=\<close> (so no \<open>=:\<close> either) passes the filter, its split on \<open>=\<close> has the
  single element the argument itself, and reading element 1 panics with
  "index out of range [1] with length 1", whatever arguments follow and in whatever
  container the argument stands first.
\<close>

theorem argument_without_equals_panics:
  assumes "CHR '':'' \<in> set arg" and "CHR ''='' \<notin> set arg"
  shows "Contains arg '':'' \<and> \<not> Contains arg ''=:'' \<and> Split arg ''='' = [arg]
       \<and> getImagesFromContainerArgs (arg # args) = Inl (IndexPanic 1 1)
       \<and> getImagesFromContainers (\<lparr>Image = img, Args = arg # args\<rparr> # containers)
           = Inl (IndexPanic 1 1)"
proof -
  have c: "Contains arg '':''" using assms(1) by (simp add: Contains_single)
  have n: "\<not> Contains arg ''=:''" using assms(2) Contains_subset [of arg "''=:''"] by auto
  have s: "Split arg ''='' = [arg]" using assms(2) by (rule Split_no_separator)
  have a: "getImagesFromContainerArgs (arg # args) = Inl (IndexPanic 1 1)"
    by (simp add: getImagesFromContainerArgs_def c n s index_def)
  then have "getImagesFromContainers (\<lparr>Image = img, Args = arg # args\<rparr> # containers)
      = Inl (IndexPanic 1 1)"
    by (simp add: getImagesFromContainers_def)
  with c n s a show ?thesis by simp
qed

theorem argument_without_equals_panics_witness:
  "CHR '':'' \<in> set ''host:8080'' \<and> CHR ''='' \<notin> set ''host:8080''
   \<and> getImagesFromContainerArgs [''host:8080''] = Inl (IndexPanic 1 1)
   \<and> getImagesFromContainers [\<lparr>Image = ''nginx:1.0'', Args = [''host:8080'']\<rparr>]
       = Inl (IndexPanic 1 1)"
  using argument_without_equals_panics [of "''host:8080''" "[]" "''nginx:1.0''" "[]"]
  by simp

lemma argsLoop_filter:
  assumes "\<forall>a\<in>set args. CHR '':'' \<in> set a \<and> \<not> sublist ''=:'' a \<longrightarrow> CHR ''='' \<in> set a"
  shows "argsLoop images args =
         Inr (images @ map (\<lambda>a. beforeFirst (CHR ''='') (afterFirst (CHR ''='') a))
                          (filter (\<lambda>a. CHR '':'' \<in> set a \<and> \<not> sublist ''=:'' a) args))"
  using assms
proof (induction args arbitrary: images)
  case Nil
  then show ?case by simp
next
  case (Cons arg args)
  then have IH: "\<And>images. argsLoop images args =
         Inr (images @ map (\<lambda>a. beforeFirst (CHR ''='') (afterFirst (CHR ''='') a))
                          (filter (\<lambda>a. CHR '':'' \<in> set a \<and> \<not> sublist ''=:'' a) args))"
    by simp
  have c1: "Contains arg '':'' \<longleftrightarrow> CHR '':'' \<in> set arg" by (rule Contains_single)
  have c2: "Contains arg ''=:'' \<longleftrightarrow> sublist ''=:'' arg" by (rule Contains_sublist)
  show ?case
  proof (cases "CHR '':'' \<in> set arg \<and> \<not> sublist ''=:'' arg")
    case False
    then have "\<not> Contains arg '':'' \<or> Contains arg ''=:''"
      by (simp add: c1 c2)
    with False IH show ?thesis by auto
  next
    case True
    then have f: "\<not> (\<not> Contains arg '':'' \<or> Contains arg ''=:'')"
      by (simp add: c1 c2)
    from True Cons.prems have "CHR ''='' \<in> set arg" by simp
    from Split_first_two [OF this] obtain rest where
      "Split arg ''='' =
         beforeFirst (CHR ''='') arg # beforeFirst (CHR ''='') (afterFirst (CHR ''='') arg) # rest"
      by blast
    then have "index (Split arg ''='') 1 = Inr (beforeFirst (CHR ''='') (afterFirst (CHR ''='') arg))"
      by (simp add: index_def)
    with f True IH show ?thesis by simp
  qed
qed

lemma beforeFirst_absent: "c \<notin> set s \<Longrightarrow> beforeFirst c s = s"
  by (auto simp: beforeFirst_def takeWhile_eq_all_conv)

text \<open>
  C4, as amended. An argument is taken to carry an image exactly when it contains \<open>:\<close> and
  does not contain \<open>=:\<close>. When every such argument of a list also contains \<open>=\<close>, the
  images extracted from the list are, in order, for each such argument the portion between
  its first \<open>=\<close> and its next \<open>=\<close> (or the end of the argument); arguments without \<open>:\<close>
  or with \<open>=:\<close> contribute nothing. That portion is the whole of what follows the first
  \<open>=\<close> exactly when what follows has no further \<open>=\<close>.
\<close>

theorem argument_images_between_equals:
  assumes "\<forall>a\<in>set args. CHR '':'' \<in> set a \<and> \<not> sublist ''=:'' a \<longrightarrow> CHR ''='' \<in> set a"
  shows "getImagesFromContainerArgs args =
         Inr (map (\<lambda>a. beforeFirst (CHR ''='') (afterFirst (CHR ''='') a))
                  (filter (\<lambda>a. CHR '':'' \<in> set a \<and> \<not> sublist ''=:'' a) args))
       \<and> ((beforeFirst (CHR ''='') (afterFirst (CHR ''='') arg) = afterFirst (CHR ''='') arg)
            \<longleftrightarrow> CHR ''='' \<notin> set (afterFirst (CHR ''='') arg))"
proof
  show "getImagesFromContainerArgs args =
         Inr (map (\<lambda>a. beforeFirst (CHR ''='') (afterFirst (CHR ''='') a))
                  (filter (\<lambda>a. CHR '':'' \<in> set a \<and> \<not> sublist ''=:'' a) args))"
    using argsLoop_filter [OF assms, of "[]"] by (simp add: getImagesFromContainerArgs_def)
next
  show "(beforeFirst (CHR ''='') (afterFirst (CHR ''='') arg) = afterFirst (CHR ''='') arg)
         \<longleftrightarrow> CHR ''='' \<notin> set (afterFirst (CHR ''='') arg)"
    by (auto simp: beforeFirst_def takeWhile_eq_all_conv)
qed

lemma sample_args_sublist:
  "\<not> sublist ''=:'' ''--proxy-image=gcr.io/proj/proxy:1.0''"
  "\<not> sublist ''=:'' ''--flag=value''"
  "sublist ''=:'' ''--flag=:value''"
  "\<not> sublist ''=:'' ''--env=IMG=repo/app:1.0''"
  unfolding Contains_sublist [symmetric] Contains_def by simp_all

theorem argument_images_between_equals_witness:
  "CHR '':'' \<in> set ''--proxy-image=gcr.io/proj/proxy:1.0''
   \<and> \<not> sublist ''=:'' ''--proxy-image=gcr.io/proj/proxy:1.0''
   \<and> CHR ''='' \<in> set ''--proxy-image=gcr.io/proj/proxy:1.0''
   \<and> CHR '':'' \<notin> set ''--flag=value''
   \<and> sublist ''=:'' ''--flag=:value''
   \<and> getImagesFromContainerArgs
        [''--proxy-image=gcr.io/proj/proxy:1.0'', ''--flag=value'', ''--flag=:value'']
      = Inr [''gcr.io/proj/proxy:1.0'']"
  using argument_images_between_equals
    [of "[''--proxy-image=gcr.io/proj/proxy:1.0'', ''--flag=value'', ''--flag=:value'']"]
  by (simp add: sample_args_sublist beforeFirst_def afterFirst_def)

text \<open>
  C4 as stated fails: \<open>--env=IMG=repo/app:1.0\<close> contains \<open>:\<close> and no \<open>=:\<close>, and the string
  extracted from it is \<open>IMG\<close>, not the portion \<open>IMG=repo/app:1.0\<close> after its first \<open>=\<close>.
\<close>

theorem argument_after_first_equals_counterexample:
  "CHR '':'' \<in> set ''--env=IMG=repo/app:1.0'' \<and> \<not> sublist ''=:'' ''--env=IMG=repo/app:1.0''
   \<and> getImagesFromContainerArgs [''--env=IMG=repo/app:1.0''] = Inr [''IMG'']
   \<and> afterFirst (CHR ''='') ''--env=IMG=repo/app:1.0'' = ''IMG=repo/app:1.0''
   \<and> getImagesFromContainerArgs [''--env=IMG=repo/app:1.0'']
       \<noteq> Inr [afterFirst (CHR ''='') ''--env=IMG=repo/app:1.0'']"
proof -
  have "getImagesFromContainerArgs [''--env=IMG=repo/app:1.0''] = Inr [''IMG'']"
    by (simp add: getImagesFromContainerArgs_def Contains_def Split.simps index_def)
  moreover have "afterFirst (CHR ''='') ''--env=IMG=repo/app:1.0'' = ''IMG=repo/app:1.0''"
    by (simp add: afterFirst_def)
  ultimately show ?thesis by (simp add: sample_args_sublist)
qed

section \<open>Facts about the image string parser\<close>

lemma takeWhile_stops: "\<not> P y \<Longrightarrow> takeWhile P (xs @ y # ys) = takeWhile P xs"
  by (induction xs) auto

lemma afterLast_absent: "c \<notin> set s \<Longrightarrow> afterLast c s = s"
proof -
  assume "c \<notin> set s"
  then have "\<forall>x\<in>set (rev s). x \<noteq> c" by auto
  then have "takeWhile (\<lambda>x. x \<noteq> c) (rev s) = rev s"
    by (simp only: takeWhile_eq_all_conv)
  then show ?thesis unfolding afterLast_def by (simp only: rev_rev_ident)
qed

lemma afterLast_append: "afterLast c (xs @ c # ys) = afterLast c ys"
  by (simp add: afterLast_def takeWhile_stops)


lemma afterFirst_append: "c \<notin> set xs \<Longrightarrow> afterFirst c (xs @ c # ys) = ys"
  by (induction xs) (auto simp: afterFirst_def)

lemma beforeLast_append: "c \<notin> set ys \<Longrightarrow> beforeLast c (xs @ c # ys) = xs"
proof -
  assume "c \<notin> set ys"
  then have "afterFirst c (rev ys @ c # rev xs) = rev xs"
    by (intro afterFirst_append) simp
  then show ?thesis by (simp add: beforeLast_def afterFirst_def)
qed

lemma afterFirst_shorter: "c \<in> set s \<Longrightarrow> length (afterFirst c s) < length s"
proof -
  assume "c \<in> set s"
  from first_decompose [OF this]
  have "length s = length (beforeFirst c s @ c # afterFirst c s)" by simp
  then show ?thesis by simp
qed

lemma Split_single_nonempty: "Split s [c] \<noteq> []"
  by (subst Split_single) simp

lemma hd_Split_single: "hd (Split s [c]) = beforeFirst c s"
  by (subst Split_single) (simp add: beforeFirst_def)

lemma last_Split_single: "last (Split s [c]) = afterLast c s"
proof (induction "length s" arbitrary: s rule: less_induct)
  case less
  show ?case
  proof (cases "c \<in> set s")
    case False
    then show ?thesis by (simp add: Split_no_separator afterLast_absent)
  next
    case True
    from first_decompose [OF True]
    have s: "s = beforeFirst c s @ c # afterFirst c s" by simp
    have "Split s [c] = beforeFirst c s # Split (afterFirst c s) [c]"
      using True by (subst Split_single) (simp add: beforeFirst_def afterFirst_def)
    then have "last (Split s [c]) = last (Split (afterFirst c s) [c])"
      by (simp add: Split_single_nonempty)
    also have "\<dots> = afterLast c (afterFirst c s)"
      using less [OF afterFirst_shorter [OF True]] .
    also have "\<dots> = afterLast c s"
      by (subst (2) s) (simp add: afterLast_append)
    finally show ?thesis .
  qed
qed

text \<open>
  What the parser returns on a string with a colon, in terms of the path part \<open>p\<close> before
  the first colon and the token \<open>v\<close> between the first colon and the next.
\<close>

lemma marshalImage_parts:
  assumes "CHR '':'' \<in> set s"
  shows "marshalImage s =
         (let p = beforeFirst (CHR '':'') s;
              v = beforeFirst (CHR '':'') (afterFirst (CHR '':'') s);
              h = (if sublist ''.io'' (beforeFirst (CHR ''/'') p)
                   then beforeFirst (CHR ''/'') p else [])
          in Inr \<lparr>Host = h, Name = afterLast (CHR ''/'') p,
                  Repository = (if h \<noteq> [] then TrimPrefix p (h @ ''/'') else p),
                  Version = v\<rparr>)"
proof -
  from Split_first_two [OF assms] obtain rest where
    sp: "Split s '':'' = beforeFirst (CHR '':'') s
           # beforeFirst (CHR '':'') (afterFirst (CHR '':'') s) # rest"
    by blast
  define p where "p = beforeFirst (CHR '':'') s"
  have ne: "Split p ''/'' \<noteq> []" by (rule Split_single_nonempty)
  then have "Split p ''/'' ! (length (Split p ''/'') - Suc 0) = afterLast (CHR ''/'') p"
    using last_conv_nth [of "Split p ''/''"] by (simp add: last_Split_single)
  with ne have l: "index (Split p ''/'') (length (Split p ''/'') - Suc 0) = Inr (afterLast (CHR ''/'') p)"
    by (simp add: index_def)
  from ne have f: "index (Split p ''/'') 0 = Inr (beforeFirst (CHR ''/'') p)"
    by (simp add: index_def hd_conv_nth [symmetric] hd_Split_single)
  have i0: "\<And>a b r. index (a # b # r) 0 = Inr (a::string)"
    and i1: "\<And>a b r. index (a # b # r) (Suc 0) = Inr (b::string)"
    by (simp_all add: index_def)
  show ?thesis
    unfolding marshalImage_def sp p_def [symmetric]
    by (simp add: i0 i1 l f Let_def Contains_sublist)
qed


lemma single_occurrence:
  assumes "c \<in> set s" and "c \<notin> set (afterFirst c s)"
  shows "beforeFirst c (afterFirst c s) = afterLast c s \<and> beforeFirst c s = beforeLast c s"
proof -
  from first_decompose [OF assms(1)]
  have s: "s = beforeFirst c s @ c # afterFirst c s" by simp
  have "afterLast c s = afterLast c (afterFirst c s)"
    by (subst s) (simp add: afterLast_append)
  then have a: "afterLast c s = afterFirst c s"
    using assms(2) by (simp add: afterLast_absent)
  have "beforeLast c (beforeFirst c s @ c # afterFirst c s) = beforeFirst c s"
    using assms(2) by (rule beforeLast_append)
  with s have b: "beforeLast c s = beforeFirst c s" by simp
  from a b assms(2) show ?thesis by (simp add: beforeFirst_absent)
qed

text \<open>
  C2, as amended. For every image string that contains \<open>:\<close> the parser returns an image
  whose Version is the substring between the first \<open>:\<close> and the next \<open>:\<close> (or the end of
  the string), and whose Host, Repository and Name are derived from the path part before
  the first \<open>:\<close>: Name is its last \<open>/\<close>-segment, Host its first \<open>/\<close>-segment when that
  contains \<open>.io\<close> and empty otherwise, Repository the path part without the prefix
  \<open>Host/\<close>. When the string has a single \<open>:\<close>, these are the substrings after and
  before the last \<open>:\<close>.
\<close>

theorem marshalImage_splits_at_first_colon:
  assumes "CHR '':'' \<in> set s"
  shows "\<exists>d. marshalImage s = Inr d
           \<and> Version d = beforeFirst (CHR '':'') (afterFirst (CHR '':'') s)
           \<and> Name d = afterLast (CHR ''/'') (beforeFirst (CHR '':'') s)
           \<and> Host d = (if sublist ''.io'' (beforeFirst (CHR ''/'') (beforeFirst (CHR '':'') s))
                       then beforeFirst (CHR ''/'') (beforeFirst (CHR '':'') s) else [])
           \<and> Repository d = (if Host d \<noteq> []
                             then TrimPrefix (beforeFirst (CHR '':'') s) (Host d @ ''/'')
                             else beforeFirst (CHR '':'') s)
           \<and> (CHR '':'' \<notin> set (afterFirst (CHR '':'') s) \<longrightarrow>
                Version d = afterLast (CHR '':'') s
                \<and> beforeFirst (CHR '':'') s = beforeLast (CHR '':'') s)"
  using single_occurrence [OF assms]
  by (simp add: marshalImage_parts [OF assms] Let_def)

theorem marshalImage_splits_at_first_colon_witness:
  "CHR '':'' \<in> set ''gcr.io/proj/proxy:1.0''
   \<and> marshalImage ''gcr.io/proj/proxy:1.0''
       = Inr \<lparr>Host = ''gcr.io'', Name = ''proxy'', Repository = ''proj/proxy'', Version = ''1.0''\<rparr>
   \<and> afterLast (CHR '':'') ''gcr.io/proj/proxy:1.0'' = ''1.0''
   \<and> beforeLast (CHR '':'') ''gcr.io/proj/proxy:1.0'' = ''gcr.io/proj/proxy''"
proof -
  have io: "sublist ''.io'' ''gcr.io''"
    unfolding Contains_sublist [symmetric] Contains_def by simp
  have c: "CHR '':'' \<in> set ''gcr.io/proj/proxy:1.0''" by simp
  from marshalImage_splits_at_first_colon [OF c] obtain d where
    d: "marshalImage ''gcr.io/proj/proxy:1.0'' = Inr d"
       "Version d = ''1.0''" "Name d = ''proxy''" "Host d = ''gcr.io''"
       "Repository d = ''proj/proxy''"
    by (auto simp: beforeFirst_def afterFirst_def afterLast_def beforeLast_def io TrimPrefix_def)
  then have "d = \<lparr>Host = ''gcr.io'', Name = ''proxy'', Repository = ''proj/proxy'', Version = ''1.0''\<rparr>"
    by simp
  with d(1) show ?thesis by (simp add: afterLast_def beforeLast_def)
qed

text \<open>
  C2 as stated fails: in \<open>localhost:5000/nginx:1.0\<close> the substring after the last \<open>:\<close> is
  \<open>1.0\<close> and the one before it is \<open>localhost:5000/nginx\<close>, but the parser returns Version
  \<open>5000/nginx\<close> and derives Name and Repository from the path part \<open>localhost\<close>.
\<close>

theorem marshalImage_last_colon_counterexample:
  "marshalImage ''localhost:5000/nginx:1.0''
     = Inr \<lparr>Host = [], Name = ''localhost'', Repository = ''localhost'', Version = ''5000/nginx''\<rparr>
   \<and> afterLast (CHR '':'') ''localhost:5000/nginx:1.0'' = ''1.0''
   \<and> beforeLast (CHR '':'') ''localhost:5000/nginx:1.0'' = ''localhost:5000/nginx''
   \<and> map_sum id Version (marshalImage ''localhost:5000/nginx:1.0'')
       \<noteq> Inr (afterLast (CHR '':'') ''localhost:5000/nginx:1.0'')"
proof -
  have "marshalImage ''localhost:5000/nginx:1.0''
     = Inr \<lparr>Host = [], Name = ''localhost'', Repository = ''localhost'', Version = ''5000/nginx''\<rparr>"
    by (simp add: marshalImage_def Split.simps index_def Contains_def)
  then show ?thesis by (simp add: afterLast_def beforeLast_def)
qed







text \<open>
  Outside that case the formatted string can differ from the input while parsing to the
  same image: what follows a second colon is not kept.
\<close>

lemma format_second_colon_example:
  "map_sum id DockerImage_String (marshalImage ''localhost:5000/nginx:1.0'')
     = Inr ''localhost:5000/nginx''
   \<and> marshalImage ''localhost:5000/nginx'' = marshalImage ''localhost:5000/nginx:1.0''"
  by (simp add: marshalImage_def Split.simps index_def Contains_def TrimPrefix_def
      DockerImage_String_def Let_def)

text \<open>A host segment without a path is doubled by the formatter.\<close>

lemma format_host_only_example:
  "map_sum id DockerImage_String (marshalImage ''foo.io:5000/x'') = Inr ''foo.io/foo.io:5000/x''"
  by (simp add: marshalImage_def Split.simps index_def Contains_def TrimPrefix_def
      DockerImage_String_def Let_def)

section \<open>Deduplication keeps first occurrences\<close>

lemma contains_iff: "contains ef images x \<longleftrightarrow> (\<exists>y\<in>set images. ef y x)"
  by (induction images) auto

lemma dedupeLoop_snoc:
  "dedupeLoop ef acc (xs @ [x]) =
     (if \<not> contains ef (dedupeLoop ef acc xs) x
      then dedupeLoop ef acc xs @ [x] else dedupeLoop ef acc xs)"
  by (induction xs arbitrary: acc) auto

lemma dedupeImages_snoc:
  "dedupeImages ef (xs @ [x]) =
     dedupeImages ef xs @ (if contains ef (dedupeImages ef xs) x then [] else [x])"
  by (simp add: dedupeImages_def dedupeLoop_snoc)

lemma dedupeImages_Nil: "dedupeImages ef [] = []"
  by (simp add: dedupeImages_def)

lemma contains_dedupeImages:
  assumes "transp ef"
  shows "contains ef (dedupeImages ef xs) x \<longleftrightarrow> contains ef xs x"
proof (induction xs rule: rev_induct)
  case Nil
  then show ?case by (simp add: dedupeImages_Nil)
next
  case (snoc a xs)
  show ?case
  proof (cases "contains ef (dedupeImages ef xs) a")
    case False
    with snoc show ?thesis
      by (auto simp: dedupeImages_snoc contains_iff)
  next
    case True
    then obtain y where y: "y \<in> set (dedupeImages ef xs)" "ef y a"
      by (auto simp: contains_iff)
    have "contains ef (dedupeImages ef xs) x" if "ef a x"
      using y that assms by (auto simp: contains_iff dest: transpD)
    with True snoc show ?thesis
      by (auto simp: dedupeImages_snoc contains_iff)
  qed
qed

lemma first_occurrences_snoc:
  "map (\<lambda>i. (xs @ [x]) ! i)
     (filter (\<lambda>i. \<forall>j<i. \<not> ef ((xs @ [x]) ! j) ((xs @ [x]) ! i)) [0..<length (xs @ [x])]) =
   map (\<lambda>i. xs ! i) (filter (\<lambda>i. \<forall>j<i. \<not> ef (xs ! j) (xs ! i)) [0..<length xs])
     @ (if contains ef xs x then [] else [x])"
proof -
  have old: "filter (\<lambda>i. \<forall>j<i. \<not> ef ((xs @ [x]) ! j) ((xs @ [x]) ! i)) [0..<length xs]
      = filter (\<lambda>i. \<forall>j<i. \<not> ef (xs ! j) (xs ! i)) [0..<length xs]"
    by (rule filter_cong) (auto simp: nth_append)
  have m: "map (\<lambda>i. (xs @ [x]) ! i) (filter (\<lambda>i. \<forall>j<i. \<not> ef (xs ! j) (xs ! i)) [0..<length xs])
      = map (\<lambda>i. xs ! i) (filter (\<lambda>i. \<forall>j<i. \<not> ef (xs ! j) (xs ! i)) [0..<length xs])"
    by (rule map_cong) (auto simp: nth_append)
  have "(\<exists>y\<in>set xs. ef y x) \<longleftrightarrow> (\<exists>j<length xs. ef (xs ! j) x)"
    by (metis in_set_conv_nth)
  then have new: "(\<forall>j<length xs. \<not> ef ((xs @ [x]) ! j) x) \<longleftrightarrow> \<not> contains ef xs x"
    by (simp add: contains_iff nth_append)
  show ?thesis
    using new by (simp add: old m)
qed

text \<open>
  C6. For a case-insensitive comparison \<open>ef\<close> that is transitive (as \<open>strings.EqualFold\<close>
  is), the deduplicated list consists of exactly those entries of the input, in their
  original order and spelling, that no earlier entry of the input equals under \<open>ef\<close>:
  the first occurrences.
\<close>

theorem dedupeImages_first_occurrences:
  assumes "transp ef"
  shows "dedupeImages ef images =
         map (\<lambda>i. images ! i)
           (filter (\<lambda>i. \<forall>j<i. \<not> ef (images ! j) (images ! i)) [0..<length images])"
proof (induction images rule: rev_induct)
  case Nil
  then show ?case by (simp add: dedupeImages_Nil)
next
  case (snoc x xs)
  have "dedupeImages ef (xs @ [x]) =
      dedupeImages ef xs @ (if contains ef xs x then [] else [x])"
    by (simp add: dedupeImages_snoc contains_dedupeImages [OF assms])
  with snoc show ?case by (simp only: first_occurrences_snoc)
qed

lemma transp_EqualFoldASCII: "transp EqualFoldASCII"
  by (rule transpI) (simp add: EqualFoldASCII_def)

theorem dedupeImages_first_occurrences_witness:
  "transp EqualFoldASCII
   \<and> dedupeImages EqualFoldASCII [''nginx:1.0'', ''NGINX:1.0''] = [''nginx:1.0'']"
proof -
  have e: "EqualFoldASCII ''nginx:1.0'' ''NGINX:1.0''"
    by code_simp
  show ?thesis
    using dedupeImages_first_occurrences [OF transp_EqualFoldASCII,
        of "[''nginx:1.0'', ''NGINX:1.0'']"]
    by (simp add: transp_EqualFoldASCII e numeral_2_eq_2)
qed

section \<open>Splitting is cutting at the leftmost separators\<close>

lemma joinWith_Cons: "xs \<noteq> [] \<Longrightarrow> joinWith sep (x # xs) = x @ sep @ joinWith sep xs"
  by (cases xs) simp_all

lemma Split_nonempty: "sep \<noteq> [] \<Longrightarrow> Split s sep \<noteq> []"
  by (subst Split.simps) (simp split: option.splits)

lemma Split_empty_input: "sep \<noteq> [] \<Longrightarrow> Split [] sep = [[]]"
  by (subst Split.simps) simp

lemma Split_no_occurrence: "sep \<noteq> [] \<Longrightarrow> \<not> sublist sep s \<Longrightarrow> Split s sep = [s]"
  by (subst Split.simps) (simp add: Index_None_iff [symmetric])

lemma Split_Some:
  "sep \<noteq> [] \<Longrightarrow> Index s sep = Some m \<Longrightarrow>
   Split s sep = take m s # Split (drop (m + length sep) s) sep"
  by (subst Split.simps) simp

lemma Index_least: "Index s sep = Some m \<Longrightarrow> k < m \<Longrightarrow> \<not> prefix sep (drop k s)"
proof (induction s arbitrary: m k)
  case Nil
  then show ?case by (auto split: if_splits)
next
  case (Cons c cs)
  show ?case
  proof (cases "prefix sep (c # cs)")
    case True
    with Cons.prems show ?thesis by simp
  next
    case False
    with Cons.prems obtain m' where m': "Index cs sep = Some m'" "m = Suc m'" by auto
    show ?thesis
    proof (cases k)
      case 0
      with False show ?thesis by simp
    next
      case (Suc k')
      with Cons.prems(2) m'(2) have "k' < m'" by simp
      from Cons.IH [OF m'(1) this] Suc show ?thesis by simp
    qed
  qed
qed

lemma Index_piece_free:
  assumes "Index s sep = Some m" and "sep \<noteq> []"
  shows "\<not> sublist sep (take m s)"
proof
  assume "sublist sep (take m s)"
  then obtain ps ss where t: "take m s = ps @ sep @ ss" by (auto simp: sublist_def)
  then have "length (ps @ sep @ ss) \<le> m" by (metis length_take min.cobounded2)
  with assms(2) have k: "length ps < m" by (cases sep) simp_all
  have "s = take m s @ drop m s" by simp
  with t have "s = ps @ sep @ ss @ drop m s" by simp
  then have "drop (length ps) s = sep @ ss @ drop m s"
    by (metis append_eq_conv_conj)
  then have "prefix sep (drop (length ps) s)" by simp
  with Index_least [OF assms(1) k] show False by simp
qed

lemma Split_join: "sep \<noteq> [] \<Longrightarrow> joinWith sep (Split s sep) = s"
proof (induction s sep rule: Split.induct)
  case (1 s sep)
  show ?case
  proof (cases "Index s sep")
    case None
    with "1.prems" show ?thesis by (subst Split.simps) simp
  next
    case (Some m)
    from "1.IH" [OF "1.prems" Some "1.prems"]
    have "joinWith sep (Split (drop (m + length sep) s) sep) = drop (m + length sep) s" .
    moreover from Index_Some_decompose [OF Some]
    have "s = take m s @ sep @ drop (m + length sep) s" by simp
    ultimately have "take m s @ sep @ joinWith sep (Split (drop (m + length sep) s) sep) = s"
      by simp
    with Some "1.prems" show ?thesis
      by (subst Split.simps) (simp add: joinWith_Cons Split_nonempty)
  qed
qed

lemma Split_pieces_free: "sep \<noteq> [] \<Longrightarrow> d \<in> set (Split s sep) \<Longrightarrow> \<not> sublist sep d"
proof (induction s sep rule: Split.induct)
  case (1 s sep)
  show ?case
  proof (cases "Index s sep")
    case None
    then have "\<not> sublist sep s" by (simp add: Index_None_iff)
    with "1.prems" show ?thesis by (simp add: Split_no_occurrence)
  next
    case (Some m)
    with "1.prems" have "d = take m s \<or> d \<in> set (Split (drop (m + length sep) s) sep)"
      by (simp add: Split_Some)
    then show ?thesis
    proof
      assume "d = take m s"
      with Index_piece_free [OF Some "1.prems"(1)] show ?thesis by simp
    next
      assume "d \<in> set (Split (drop (m + length sep) s) sep)"
      from "1.IH" [OF "1.prems"(1) Some "1.prems"(1) this] show ?thesis .
    qed
  qed
qed

text \<open>
  C9. The separator of a file is \<open>\r\n---\r\n\<close> when \<open>runtime.GOOS\<close> is \<open>windows\<close> and the
  content contains \<open>\r\n\<close>, and \<open>\n---\n\<close> in every other case. The documents are the
  pieces that \<open>bytes.Split\<close> cuts at that separator: put together again with the
  separator between them they give the content, and no document contains the separator.
  Empty content gives exactly one document, the empty one.
\<close>

theorem doSplit_documents:
  "(let sep = (if goos = ''windows'' \<and> sublist CRLF data
               then CRLF @ ''---'' @ CRLF else LF @ ''---'' @ LF)
    in doSplit goos data = Split data sep
       \<and> joinWith sep (doSplit goos data) = data
       \<and> (\<forall>d\<in>set (doSplit goos data). \<not> sublist sep d))
   \<and> doSplit goos [] = [[]]"
proof -
  define sep where "sep = (if goos = ''windows'' \<and> sublist CRLF data
               then CRLF @ ''---'' @ CRLF else LF @ ''---'' @ LF)"
  have ne: "sep \<noteq> []" by (simp add: sep_def)
  have d: "doSplit goos data = Split data sep"
    by (auto simp: doSplit_def sep_def Let_def Contains_sublist)
  have e: "doSplit goos [] = [[]]"
    by (simp add: doSplit_def Let_def Split_empty_input)
  from d e ne show ?thesis
    unfolding Let_def sep_def [symmetric]
    by (auto simp: Split_join dest: Split_pieces_free)
qed

theorem doSplit_documents_witness:
  "doSplit ''linux'' (''a'' @ CRLF @ ''---'' @ CRLF @ ''b'' @ LF @ ''---'' @ LF @ ''c'')
     = [''a'' @ CRLF @ ''---'' @ CRLF @ ''b'', ''c'']
   \<and> doSplit ''windows'' (''a'' @ CRLF @ ''---'' @ CRLF @ ''b'' @ LF @ ''---'' @ LF @ ''c'')
     = [''a'', ''b'' @ LF @ ''---'' @ LF @ ''c'']
   \<and> doSplit ''windows'' (''a'' @ LF @ ''---'' @ LF @ ''b'') = [''a'', ''b'']
   \<and> doSplit ''linux'' [] = [[]]"
proof -
  let ?x = "''a'' @ CRLF @ ''---'' @ CRLF @ ''b'' @ LF @ ''---'' @ LF @ ''c''"
  let ?y = "''a'' @ LF @ ''---'' @ LF @ ''b''"
  have s1: "(''linux'' = ''windows'' \<and> sublist CRLF ?x) = False"
    by simp
  have s2: "(''windows'' = ''windows'' \<and> sublist CRLF ?x) = True"
    unfolding Contains_sublist [symmetric] by (simp add: Contains_def CRLF_def LF_def)
  have s3: "(''windows'' = ''windows'' \<and> sublist CRLF ?y) = False"
    unfolding Contains_sublist [symmetric] by (simp add: Contains_def CRLF_def LF_def)
  have "doSplit ''linux'' ?x = Split ?x (LF @ ''---'' @ LF)"
    using doSplit_documents [of "''linux''" ?x] by (simp only: Let_def s1 if_False)
  also have "\<dots> = [''a'' @ CRLF @ ''---'' @ CRLF @ ''b'', ''c'']"
    by (simp add: Split.simps CRLF_def LF_def)
  finally have l: "doSplit ''linux'' ?x = [''a'' @ CRLF @ ''---'' @ CRLF @ ''b'', ''c'']" .
  have "doSplit ''windows'' ?x = Split ?x (CRLF @ ''---'' @ CRLF)"
    using doSplit_documents [of "''windows''" ?x] by (simp only: Let_def s2 if_True)
  also have "\<dots> = [''a'', ''b'' @ LF @ ''---'' @ LF @ ''c'']"
    by (simp add: Split.simps CRLF_def LF_def)
  finally have w: "doSplit ''windows'' ?x = [''a'', ''b'' @ LF @ ''---'' @ LF @ ''c'']" .
  have "doSplit ''windows'' ?y = Split ?y (LF @ ''---'' @ LF)"
    using doSplit_documents [of "''windows''" ?y] by (simp only: Let_def s3 if_False)
  also have "\<dots> = [''a'', ''b'']"
    by (simp add: Split.simps CRLF_def LF_def)
  finally have v: "doSplit ''windows'' ?y = [''a'', ''b'']" .
  have e: "doSplit ''linux'' [] = [[]]"
    using doSplit_documents [of "''linux''" "[]"] by (simp only:)
  from l w v e show ?thesis by (simp only: simp_thms)
qed

section \<open>The loops over containers and documents\<close>

lemma containersLoop_order:
  assumes "\<forall>c\<in>set containers. getImagesFromContainerArgs (Args c) = Inr (argImages c)"
  shows "containersLoop images containers =
         Inr (images @ concat (map (\<lambda>c. Image c # argImages c) containers))"
  using assms by (induction containers arbitrary: images) simp_all

lemma getImagesFromContainers_order:
  assumes "\<forall>c\<in>set containers. getImagesFromContainerArgs (Args c) = Inr (argImages c)"
  shows "getImagesFromContainers containers =
         Inr (concat (map (\<lambda>c. Image c # argImages c) containers))"
  using containersLoop_order [OF assms, of "[]"] by (simp add: getImagesFromContainers_def)

lemma documentsLoop_append:
  "documentsLoop e imageList (before @ after) =
     rbind (documentsLoop e imageList before) (\<lambda>imageList'. documentsLoop e imageList' after)"
proof (induction before arbitrary: imageList)
  case Nil
  then show ?case by simp
next
  case (Cons doc before)
  show ?case
  proof (cases "unmarshalTypeMeta e doc")
    case None
    with Cons show ?thesis by simp
  next
    case (Some kind)
    with Cons show ?thesis
      by (simp add: rbind_def split: option.splits sum.splits prod.splits)
  qed
qed

text \<open>
  C8. In a document of a kind other than Prometheus and Alertmanager that parses as a pod
  template, the images of the init containers are appended before those of the regular
  containers, each list in its listed order, and each container contributes its image field
  followed by the images found in its own arguments (here under the condition that the
  argument scan of every container returns).
\<close>

theorem pod_template_emission_order:
  assumes "unmarshalTypeMeta e doc = Some kind"
    and "kind \<noteq> ''Prometheus''" and "kind \<noteq> ''Alertmanager''"
    and "unmarshalBaseType e doc = Some (initContainers, containers)"
    and "\<forall>c\<in>set (initContainers @ containers).
           getImagesFromContainerArgs (Args c) = Inr (argImages c)"
  shows "documentsLoop e imageList (doc # yamlFiles) =
         documentsLoop e
           (imageList @ concat (map (\<lambda>c. Image c # argImages c) initContainers)
                      @ concat (map (\<lambda>c. Image c # argImages c) containers))
           yamlFiles"
proof -
  from assms(5) have
    i: "getImagesFromContainers initContainers
          = Inr (concat (map (\<lambda>c. Image c # argImages c) initContainers))" and
    c: "getImagesFromContainers containers
          = Inr (concat (map (\<lambda>c. Image c # argImages c) containers))"
    by (simp_all add: getImagesFromContainers_order)
  show ?thesis
    using assms(1-4) by (auto simp: i c)
qed

theorem pod_template_emission_order_witness:
  "unmarshalTypeMeta (sampleEnv deploymentDoc) deploymentDoc = Some ''Deployment''
   \<and> unmarshalBaseType (sampleEnv deploymentDoc) deploymentDoc
       = Some ([], [\<lparr>Image = ''nginx:1.0'', Args = []\<rparr>,
                    \<lparr>Image = ''busybox:1.2'',
                     Args = [''--proxy-image=gcr.io/proj/proxy:1.0'']\<rparr>])
   \<and> documentsLoop (sampleEnv deploymentDoc) [] [deploymentDoc]
       = Inr [''nginx:1.0'', ''busybox:1.2'', ''gcr.io/proj/proxy:1.0'']"
proof -
  let ?cs = "[\<lparr>Image = ''nginx:1.0'', Args = []\<rparr>,
              \<lparr>Image = ''busybox:1.2'', Args = [''--proxy-image=gcr.io/proj/proxy:1.0'']\<rparr>]"
  let ?f = "\<lambda>c. if Args c = [] then [] else [''gcr.io/proj/proxy:1.0'']"
  have k: "unmarshalTypeMeta (sampleEnv deploymentDoc) deploymentDoc = Some ''Deployment''"
    by (simp add: sampleEnv_def sampleTypeMeta_def deploymentDoc_def notYamlDoc_def)
  have b: "unmarshalBaseType (sampleEnv deploymentDoc) deploymentDoc = Some ([], ?cs)"
    by (simp add: sampleEnv_def sampleBaseType_def)
  have a: "\<forall>c\<in>set ([] @ ?cs). getImagesFromContainerArgs (Args c) = Inr (?f c)"
    by (simp add: getImagesFromContainerArgs_def Contains_def Split.simps index_def)
  from pod_template_emission_order [OF k _ _ b a, of "[]" "[]"] k b
  show ?thesis by simp
qed

text \<open>With the argument on the first container instead, its image comes second.\<close>

lemma argument_on_first_container_example:
  "getImagesFromContainers
     [\<lparr>Image = ''nginx:1.0'', Args = [''--proxy-image=gcr.io/proj/proxy:1.0'']\<rparr>,
      \<lparr>Image = ''busybox:1.2'', Args = []\<rparr>]
   = Inr [''nginx:1.0'', ''gcr.io/proj/proxy:1.0'', ''busybox:1.2'']"
  by (simp add: getImagesFromContainers_def getImagesFromContainerArgs_def Contains_def
      Split.simps index_def)

section \<open>Skipped documents and fatal documents\<close>

lemma documentsLoop_skip:
  assumes "\<And>l. documentsLoop e l (doc # after) = documentsLoop e l after"
  shows "documentsLoop e imageList (before @ doc # after) = documentsLoop e imageList (before @ after)"
  by (simp add: documentsLoop_append [of e imageList before] assms del: documentsLoop.simps)

lemma documentsLoop_fatal:
  assumes "\<And>l. documentsLoop e l (doc # after) = Inl f"
  shows "documentsLoop e imageList (before @ doc # after)
         = rbind (documentsLoop e imageList before) (\<lambda>l. Inl f)"
  by (simp add: documentsLoop_append [of e imageList before] assms del: documentsLoop.simps)

lemma GetImagesInPath_documents:
  assumes "getYamlFiles e path = Inr files" and "splitYamlFiles e files = Inr yamlFiles"
  shows "GetImagesInPath e path =
         rbind (documentsLoop e [] yamlFiles)
           (\<lambda>imageList. marshalImages (dedupeImages (EqualFold e) imageList))"
  by (simp add: GetImagesInPath_def wrap_def assms)

lemma runListCommand_failure:
  assumes "Getwd e = Some workingDir" and "GetImagesInPath e (Join e workingDir arg0) = Inl f"
  shows "runListCommand e (arg0 # args) = (Some (wrapFailure ''get images from path'' f), Nothing)"
  by (simp add: runListCommand_def assms index_def)

lemma rbind_fails: "rbind m (\<lambda>x. Inl f) = Inl f \<or> (\<exists>f'. m = Inl f' \<and> rbind m (\<lambda>x. Inl f) = Inl f')"
  by (cases m) simp_all

text \<open>
  C5. A document whose \<open>kind\<close> cannot be parsed, and a document of a kind other than
  Prometheus and Alertmanager that does not parse as a pod template, change nothing: the
  loop over the documents returns what it returns without them. A document of kind
  Prometheus or Alertmanager whose full parse fails makes the loop return the error
  \<open>unmarshal prometheus\<close> or \<open>unmarshal alertmanager\<close> (unless a document before it has
  already failed, and then that failure is returned), whatever documents follow; and when
  such a document is among the documents of the files found, \<open>GetImagesInPath\<close> fails and
  \<open>runListCommand\<close> returns the failure without printing or writing anything.
\<close>

theorem document_error_severity:
  "(unmarshalTypeMeta e doc = None \<longrightarrow>
      documentsLoop e imageList (before @ doc # after)
        = documentsLoop e imageList (before @ after))
   \<and> (unmarshalTypeMeta e doc = Some kind \<and> kind \<noteq> ''Prometheus'' \<and> kind \<noteq> ''Alertmanager''
        \<and> unmarshalBaseType e doc = None \<longrightarrow>
      documentsLoop e imageList (before @ doc # after)
        = documentsLoop e imageList (before @ after))
   \<and> (unmarshalTypeMeta e doc = Some ''Prometheus'' \<and> unmarshalPrometheus e doc = None \<longrightarrow>
      documentsLoop e imageList (before @ doc # after)
        = rbind (documentsLoop e imageList before) (\<lambda>l. Inl (Err [''unmarshal prometheus''])))
   \<and> (unmarshalTypeMeta e doc = Some ''Alertmanager'' \<and> unmarshalAlertmanager e doc = None \<longrightarrow>
      documentsLoop e imageList (before @ doc # after)
        = rbind (documentsLoop e imageList before) (\<lambda>l. Inl (Err [''unmarshal alertmanager''])))
   \<and> ((unmarshalTypeMeta e doc = Some ''Prometheus'' \<and> unmarshalPrometheus e doc = None
         \<or> unmarshalTypeMeta e doc = Some ''Alertmanager'' \<and> unmarshalAlertmanager e doc = None)
        \<and> Getwd e = Some workingDir
        \<and> getYamlFiles e (Join e workingDir arg0) = Inr files
        \<and> splitYamlFiles e files = Inr (before @ doc # after) \<longrightarrow>
      (\<exists>f. GetImagesInPath e (Join e workingDir arg0) = Inl f
           \<and> runListCommand e (arg0 # args)
               = (Some (wrapFailure ''get images from path'' f), Nothing)))"
proof (intro conjI impI)
  assume "unmarshalTypeMeta e doc = None"
  then show "documentsLoop e imageList (before @ doc # after)
        = documentsLoop e imageList (before @ after)"
    by (intro documentsLoop_skip) simp
next
  assume "unmarshalTypeMeta e doc = Some kind \<and> kind \<noteq> ''Prometheus'' \<and> kind \<noteq> ''Alertmanager''
        \<and> unmarshalBaseType e doc = None"
  then show "documentsLoop e imageList (before @ doc # after)
        = documentsLoop e imageList (before @ after)"
    by (intro documentsLoop_skip) simp
next
  assume "unmarshalTypeMeta e doc = Some ''Prometheus'' \<and> unmarshalPrometheus e doc = None"
  then show "documentsLoop e imageList (before @ doc # after)
        = rbind (documentsLoop e imageList before) (\<lambda>l. Inl (Err [''unmarshal prometheus'']))"
    by (intro documentsLoop_fatal) simp
next
  assume "unmarshalTypeMeta e doc = Some ''Alertmanager'' \<and> unmarshalAlertmanager e doc = None"
  then show "documentsLoop e imageList (before @ doc # after)
        = rbind (documentsLoop e imageList before) (\<lambda>l. Inl (Err [''unmarshal alertmanager'']))"
    by (intro documentsLoop_fatal) simp
next
  assume a: "(unmarshalTypeMeta e doc = Some ''Prometheus'' \<and> unmarshalPrometheus e doc = None
         \<or> unmarshalTypeMeta e doc = Some ''Alertmanager'' \<and> unmarshalAlertmanager e doc = None)
        \<and> Getwd e = Some workingDir
        \<and> getYamlFiles e (Join e workingDir arg0) = Inr files
        \<and> splitYamlFiles e files = Inr (before @ doc # after)"
  then obtain msg where "\<And>l. documentsLoop e l (doc # after) = Inl (Err [msg])"
    by auto
  from documentsLoop_fatal [OF this, of "[]" before]
  have "documentsLoop e [] (before @ doc # after)
        = rbind (documentsLoop e [] before) (\<lambda>l. Inl (Err [msg]))" .
  with rbind_fails [of "documentsLoop e [] before" "Err [msg]"]
  obtain f where "documentsLoop e [] (before @ doc # after) = Inl f" by auto
  with a have "GetImagesInPath e (Join e workingDir arg0) = Inl f"
    by (simp add: GetImagesInPath_documents [of e _ files "before @ doc # after"])
  with a runListCommand_failure [of e workingDir arg0 f args]
  show "\<exists>f. GetImagesInPath e (Join e workingDir arg0) = Inl f
           \<and> runListCommand e (arg0 # args)
               = (Some (wrapFailure ''get images from path'' f), Nothing)"
    by simp
qed

theorem document_error_severity_witness:
  "unmarshalTypeMeta (sampleEnv (deploymentDoc @ LF @ ''---'' @ LF @ brokenPrometheusDoc)) notYamlDoc
     = None
   \<and> documentsLoop (sampleEnv (deploymentDoc @ LF @ ''---'' @ LF @ brokenPrometheusDoc)) []
        ([prometheusDoc] @ notYamlDoc # [deploymentDoc])
       = Inr [''quay.io/prometheus/prometheus:v2.0.0'', ''nginx:1.0'', ''busybox:1.2'',
              ''gcr.io/proj/proxy:1.0'']
   \<and> unmarshalBaseType (sampleEnv (deploymentDoc @ LF @ ''---'' @ LF @ brokenPrometheusDoc))
        numberSpecDoc = None
   \<and> documentsLoop (sampleEnv (deploymentDoc @ LF @ ''---'' @ LF @ brokenPrometheusDoc)) []
        ([prometheusDoc] @ numberSpecDoc # [deploymentDoc])
       = Inr [''quay.io/prometheus/prometheus:v2.0.0'', ''nginx:1.0'', ''busybox:1.2'',
              ''gcr.io/proj/proxy:1.0'']
   \<and> unmarshalPrometheus (sampleEnv (deploymentDoc @ LF @ ''---'' @ LF @ brokenPrometheusDoc))
        brokenPrometheusDoc = None
   \<and> documentsLoop (sampleEnv (deploymentDoc @ LF @ ''---'' @ LF @ brokenPrometheusDoc)) []
        ([deploymentDoc] @ brokenPrometheusDoc # [prometheusDoc])
       = Inl (Err [''unmarshal prometheus''])
   \<and> unmarshalAlertmanager (sampleEnv (deploymentDoc @ LF @ ''---'' @ LF @ brokenPrometheusDoc))
        brokenAlertmanagerDoc = None
   \<and> documentsLoop (sampleEnv (deploymentDoc @ LF @ ''---'' @ LF @ brokenPrometheusDoc)) []
        ([deploymentDoc] @ brokenAlertmanagerDoc # [prometheusDoc])
       = Inl (Err [''unmarshal alertmanager''])
   \<and> splitYamlFiles (sampleEnv (deploymentDoc @ LF @ ''---'' @ LF @ brokenPrometheusDoc))
        [''/work/manifests/app.yaml'']
       = Inr ([deploymentDoc] @ brokenPrometheusDoc # [])
   \<and> runListCommand (sampleEnv (deploymentDoc @ LF @ ''---'' @ LF @ brokenPrometheusDoc))
        [''manifests'']
       = (Some (Err [''get images from path'', ''unmarshal prometheus'']), Nothing)"
proof -
  let ?E = "sampleEnv (deploymentDoc @ LF @ ''---'' @ LF @ brokenPrometheusDoc)"
  have k1: "unmarshalTypeMeta ?E notYamlDoc = None"
    by code_simp
  have k2: "unmarshalTypeMeta ?E numberSpecDoc = Some ''ConfigMap''
            \<and> ''ConfigMap'' \<noteq> ''Prometheus'' \<and> ''ConfigMap'' \<noteq> ''Alertmanager''
            \<and> unmarshalBaseType ?E numberSpecDoc = None"
    by code_simp
  have k3: "unmarshalTypeMeta ?E brokenPrometheusDoc = Some ''Prometheus''
            \<and> unmarshalPrometheus ?E brokenPrometheusDoc = None"
    by code_simp
  have k4: "unmarshalTypeMeta ?E brokenAlertmanagerDoc = Some ''Alertmanager''
            \<and> unmarshalAlertmanager ?E brokenAlertmanagerDoc = None"
    by code_simp
  have ok: "documentsLoop ?E [] ([prometheusDoc] @ [deploymentDoc])
       = Inr [''quay.io/prometheus/prometheus:v2.0.0'', ''nginx:1.0'', ''busybox:1.2'',
              ''gcr.io/proj/proxy:1.0'']"
    by code_simp
  have pre: "documentsLoop ?E [] [deploymentDoc]
       = Inr [''nginx:1.0'', ''busybox:1.2'', ''gcr.io/proj/proxy:1.0'']"
    by code_simp
  have wd: "Getwd ?E = Some ''/work''"
    by (simp add: sampleEnv_def)
  have files: "getYamlFiles ?E (Join ?E ''/work'' ''manifests'') = Inr [''/work/manifests/app.yaml'']"
    by code_simp
  have docs: "splitYamlFiles ?E [''/work/manifests/app.yaml'']
       = Inr ([deploymentDoc] @ brokenPrometheusDoc # [])"
    by code_simp
  note sev = document_error_severity [where e = ?E and imageList = "[]"]
  have r1: "documentsLoop ?E [] ([prometheusDoc] @ notYamlDoc # [deploymentDoc])
       = Inr [''quay.io/prometheus/prometheus:v2.0.0'', ''nginx:1.0'', ''busybox:1.2'',
              ''gcr.io/proj/proxy:1.0'']"
    using sev [where doc = notYamlDoc and before = "[prometheusDoc]" and after = "[deploymentDoc]",
        THEN conjunct1, THEN mp, OF k1] ok
    by (simp only:)
  have r2: "documentsLoop ?E [] ([prometheusDoc] @ numberSpecDoc # [deploymentDoc])
       = Inr [''quay.io/prometheus/prometheus:v2.0.0'', ''nginx:1.0'', ''busybox:1.2'',
              ''gcr.io/proj/proxy:1.0'']"
    using sev [where doc = numberSpecDoc and before = "[prometheusDoc]"
        and after = "[deploymentDoc]" and kind = "''ConfigMap''",
        THEN conjunct2, THEN conjunct1, THEN mp, OF k2] ok
    by (simp only:)
  have r3: "documentsLoop ?E [] ([deploymentDoc] @ brokenPrometheusDoc # [prometheusDoc])
       = Inl (Err [''unmarshal prometheus''])"
    using sev [where doc = brokenPrometheusDoc and before = "[deploymentDoc]"
        and after = "[prometheusDoc]",
        THEN conjunct2, THEN conjunct2, THEN conjunct1, THEN mp, OF k3] pre
    by (simp only: rbind_Inr)
  have r4: "documentsLoop ?E [] ([deploymentDoc] @ brokenAlertmanagerDoc # [prometheusDoc])
       = Inl (Err [''unmarshal alertmanager''])"
    using sev [where doc = brokenAlertmanagerDoc and before = "[deploymentDoc]"
        and after = "[prometheusDoc]",
        THEN conjunct2, THEN conjunct2, THEN conjunct2, THEN conjunct1, THEN mp, OF k4] pre
    by (simp only: rbind_Inr)
  have h5: "(unmarshalTypeMeta ?E brokenPrometheusDoc = Some ''Prometheus''
              \<and> unmarshalPrometheus ?E brokenPrometheusDoc = None
             \<or> unmarshalTypeMeta ?E brokenPrometheusDoc = Some ''Alertmanager''
              \<and> unmarshalAlertmanager ?E brokenPrometheusDoc = None)
            \<and> Getwd ?E = Some ''/work''
            \<and> getYamlFiles ?E (Join ?E ''/work'' ''manifests'') = Inr [''/work/manifests/app.yaml'']
            \<and> splitYamlFiles ?E [''/work/manifests/app.yaml'']
                = Inr ([deploymentDoc] @ brokenPrometheusDoc # [])"
    by (intro conjI disjI1) (rule k3 [THEN conjunct1] k3 [THEN conjunct2] wd files docs)+
  from sev [where doc = brokenPrometheusDoc and before = "[deploymentDoc]" and after = "[]"
        and workingDir = "''/work''" and ?arg0.0 = "''manifests''"
        and files = "[''/work/manifests/app.yaml'']" and args = "[]",
        THEN conjunct2, THEN conjunct2, THEN conjunct2, THEN conjunct2, THEN mp, OF h5]
  obtain f where f: "GetImagesInPath ?E (Join ?E ''/work'' ''manifests'') = Inl f"
    "runListCommand ?E [''manifests''] = (Some (wrapFailure ''get images from path'' f), Nothing)"
    by blast
  have "documentsLoop ?E [] ([deploymentDoc] @ brokenPrometheusDoc # [])
       = Inl (Err [''unmarshal prometheus''])"
    using sev [where doc = brokenPrometheusDoc and before = "[deploymentDoc]" and after = "[]",
        THEN conjunct2, THEN conjunct2, THEN conjunct1, THEN mp, OF k3] pre
    by (simp only: rbind_Inr)
  then have "GetImagesInPath ?E (Join ?E ''/work'' ''manifests'') = Inl (Err [''unmarshal prometheus''])"
    by (simp only: GetImagesInPath_documents [OF files docs] rbind_Inl)
  with f have r5: "runListCommand ?E [''manifests'']
       = (Some (Err [''get images from path'', ''unmarshal prometheus'']), Nothing)"
    by simp
  from k1 k2 k3 k4 r1 r2 r3 r4 r5 docs show ?thesis by (simp only: simp_thms)
qed

section \<open>Two runs that end differently from what is specified\<close>

lemma marshalImage_without_colon:
  "CHR '':'' \<notin> set s \<Longrightarrow> marshalImage s = Inl (IndexPanic 1 1)"
proof -
  assume "CHR '':'' \<notin> set s"
  then have sp: "Split s '':'' = [s]" by (rule Split_no_separator)
  have ne: "Split s ''/'' \<noteq> []" by (rule Split_single_nonempty)
  then have "index (Split s ''/'') (length (Split s ''/'') - Suc 0)
      = Inr (Split s ''/'' ! (length (Split s ''/'') - Suc 0))"
    and "index (Split s ''/'') 0 = Inr (Split s ''/'' ! 0)"
    by (simp_all add: index_def)
  then show ?thesis
    by (simp add: marshalImage_def sp index_def Let_def)
qed

lemma marshalLoop_without_colon:
  "\<exists>s\<in>set images. CHR '':'' \<notin> set s \<Longrightarrow> marshalLoop acc images = Inl (IndexPanic 1 1)"
proof (induction images arbitrary: acc)
  case Nil
  then show ?case by simp
next
  case (Cons s images)
  show ?case
  proof (cases "CHR '':'' \<in> set s")
    case False
    then show ?thesis by (simp add: marshalImage_without_colon)
  next
    case True
    from marshalImage_parts [OF True] obtain d where "marshalImage s = Inr d"
      by (simp add: Let_def)
    moreover from True Cons.prems have "\<exists>s\<in>set images. CHR '':'' \<notin> set s" by auto
    ultimately show ?thesis using Cons.IH by simp
  qed
qed

lemma marshalImages_without_colon:
  "\<exists>s\<in>set images. CHR '':'' \<notin> set s \<Longrightarrow> marshalImages images = Inl (IndexPanic 1 1)"
  by (simp add: marshalImages_def marshalLoop_without_colon)

text \<open>The argument scan can emit a string without a colon as well.\<close>

lemma argument_value_without_colon_example:
  "getImagesFromContainerArgs [''a:b=c''] = Inr [''c'']"
  by (simp add: getImagesFromContainerArgs_def Contains_def Split.simps index_def)

text \<open>
  C3. The image field of a container reaches the parser as it is written: a Deployment whose
  only container has the image \<open>nginx\<close>, in \<open>manifests/app.yaml\<close>, is read, its image
  \<open>nginx\<close> is collected, and the parser panics on it with
  "index out of range [1] with length 1"; the run ends in that panic.
\<close>

theorem untagged_image_reaches_parser:
  "getYamlFiles (sampleEnv untaggedDoc) ''/work/manifests'' = Inr [''/work/manifests/app.yaml'']
   \<and> splitYamlFiles (sampleEnv untaggedDoc) [''/work/manifests/app.yaml''] = Inr [untaggedDoc]
   \<and> documentsLoop (sampleEnv untaggedDoc) [] [untaggedDoc] = Inr [''nginx'']
   \<and> marshalImages [''nginx''] = Inl (IndexPanic 1 1)
   \<and> GetImagesInPath (sampleEnv untaggedDoc) ''/work/manifests'' = Inl (IndexPanic 1 1)
   \<and> runListCommand (sampleEnv untaggedDoc) [''manifests''] = (Some (IndexPanic 1 1), Nothing)"
  by code_simp

lemma runListCommand_drops_create_error:
  assumes "Getwd e = Some workingDir"
    and "GetImagesInPath e (Join e workingDir arg0) = Inr images"
    and "outputFlag e \<noteq> []"
    and "\<not> Create e (Join e workingDir (outputFlag e))"
  shows "writeListToFile e images (Join e workingDir (outputFlag e))
           = (Some (Err [''creating file'']), Nothing)"
    and "runListCommand e (arg0 # args) = (None, Nothing)"
    and "listRunE e (arg0 # args) = (None, Nothing)"
  using assms by (simp_all add: writeListToFile_def runListCommand_def listRunE_def index_def)

text \<open>
  C1. With \<open>--output out/images.txt\<close> and a file that cannot be created,
  \<open>writeListToFile\<close> returns the error \<open>creating file\<close>, but \<open>runListCommand\<close> and the
  command's \<open>RunE\<close> return no error, and nothing is written or printed.
\<close>

theorem create_failure_is_not_reported:
  "outputFlag (sampleEnv deploymentDoc) = ''out/images.txt''
   \<and> \<not> Create (sampleEnv deploymentDoc) ''/work/out/images.txt''
   \<and> GetImagesInPath (sampleEnv deploymentDoc) ''/work/manifests''
       = Inr [\<lparr>Host = [], Name = ''nginx'', Repository = ''nginx'', Version = ''1.0''\<rparr>,
              \<lparr>Host = [], Name = ''busybox'', Repository = ''busybox'', Version = ''1.2''\<rparr>,
              \<lparr>Host = ''gcr.io'', Name = ''proxy'', Repository = ''proj/proxy'',
               Version = ''1.0''\<rparr>]
   \<and> fst (writeListToFile (sampleEnv deploymentDoc)
            [\<lparr>Host = [], Name = ''nginx'', Repository = ''nginx'', Version = ''1.0''\<rparr>]
            ''/work/out/images.txt'')
       = Some (Err [''creating file''])
   \<and> runListCommand (sampleEnv deploymentDoc) [''manifests''] = (None, Nothing)
   \<and> listRunE (sampleEnv deploymentDoc) [''manifests''] = (None, Nothing)"
  by code_simp

end
